theory Spec2Isabelle
  imports Complex_Main "HOL-Library.Multiset" "HOL-Library.Sublist"
begin

section \<open>Keyword-extraction scoring: the embedding\<close>

text \<open>
  The scoring functions of \<^verbatim>\<open>key_eval.py\<close> (and of the older \<^verbatim>\<open>KeyEval.py\<close>, where the two
  differ) as HOL functions.

  \<^item> A Python exception is a value of type \<open>error\<close>; a function that can raise returns
    \<open>error + 'a\<close>, with \<open>Inl\<close> for the exception.
  \<^item> A Python \<^verbatim>\<open>float\<close> is a \<open>rat\<close>: every number the scoring functions compute is a
    quotient of small integers, and the model computes it exactly. Where a property
    turns on the rounding of IEEE-754 arithmetic (the order of the additions inside
    \<^verbatim>\<open>sum\<close>), the functions concerned are given a second time, with the suffix
    \<open>_float\<close> and every float operation rounded to binary64.
  \<^item> A Python \<^verbatim>\<open>str\<close> is a \<open>string\<close>; one \<open>char\<close> stands for one code point below 256.
  \<^item> A \<^verbatim>\<open>for\<close> loop is a recursive function over the list it iterates, with the variables
    the loop updates as further arguments.
\<close>

subsection \<open>Exceptions and division\<close>

datatype error = ZeroDivisionError | ValueError | Exception string

text \<open>\<^verbatim>\<open>a / b\<close> on numbers: raises \<^verbatim>\<open>ZeroDivisionError\<close> when \<^verbatim>\<open>b\<close> is zero.\<close>

definition truediv :: "rat \<Rightarrow> rat \<Rightarrow> error + rat" where
  "truediv a b = (if b = 0 then Inl ZeroDivisionError else Inr (a / b))"

subsection \<open>Built-in string operations\<close>

text \<open>
  \<^verbatim>\<open>sub in s\<close> for two strings: \<^verbatim>\<open>sub\<close> occurs in \<^verbatim>\<open>s\<close> as a contiguous substring
  (the empty string occurs in every string).
\<close>

fun str_contains :: "string \<Rightarrow> string \<Rightarrow> bool" where
  "str_contains [] sub = (sub = [])"
| "str_contains (c # cs) sub = (prefix sub (c # cs) \<or> str_contains cs sub)"

text \<open>
  \<^verbatim>\<open>str.isspace\<close> on one character, for the code points below 256: TAB, LF, VT, FF, CR,
  the separators FS, GS, RS, US, the space, NEL and the no-break space.
\<close>

definition py_isspace :: "char \<Rightarrow> bool" where
  "py_isspace c = ((of_char c :: nat) \<in> {9, 10, 11, 12, 13, 28, 29, 30, 31, 32, 133, 160})"

text \<open>
  \<^verbatim>\<open>s.split()\<close> without an argument: the maximal runs of non-whitespace characters, in
  order; no empty string is ever produced. \<open>cur\<close> is the word being read.
\<close>

fun split_words :: "string \<Rightarrow> string \<Rightarrow> string list" where
  "split_words cur [] = (if cur = [] then [] else [cur])"
| "split_words cur (c # cs) =
     (if py_isspace c
      then (if cur = [] then split_words [] cs else cur # split_words [] cs)
      else split_words (cur @ [c]) cs)"

definition str_split :: "string \<Rightarrow> string list" where
  "str_split s = split_words [] s"

text \<open>
  \<^verbatim>\<open>s.split(sep)\<close> with a separator: scans left to right, cuts at every non-overlapping
  occurrence of \<open>sep\<close>, and keeps empty fragments. The source calls it with the literals
  \<^verbatim>\<open>";"\<close>, \<^verbatim>\<open>","\<close>, \<^verbatim>\<open>"\t"\<close>, \<^verbatim>\<open>" to"\<close> and \<^verbatim>\<open>"---"\<close> only, so the \<^verbatim>\<open>ValueError\<close> of an empty
  separator cannot arise; with \<open>sep = []\<close> the function below returns the string uncut.
\<close>

function split_at :: "string \<Rightarrow> string \<Rightarrow> string \<Rightarrow> string list" where
  "split_at sep cur [] = [cur]"
| "split_at sep cur (c # cs) =
     (if sep \<noteq> [] \<and> prefix sep (c # cs)
      then cur # split_at sep [] (drop (length sep) (c # cs))
      else split_at sep (cur @ [c]) cs)"
  by pat_completeness auto
termination
  by (relation "measure (\<lambda>(sep, cur, s). length s)") auto

definition str_split_sep :: "string \<Rightarrow> string \<Rightarrow> string list" where
  "str_split_sep s sep = split_at sep [] s"

subsection \<open>Recall, precision and F1\<close>

text \<open>
  The loop shared by \<^verbatim>\<open>get_recall\<close> and \<^verbatim>\<open>get_precision\<close>:
  \<^verbatim>\<open>for each in l2: if each in l1: occur_count += 1.0\<close>.
\<close>

fun count_loop :: "string list \<Rightarrow> string list \<Rightarrow> rat \<Rightarrow> rat" where
  "count_loop l1 [] occur_count = occur_count"
| "count_loop l1 (each # l2) occur_count =
     count_loop l1 l2 (if each \<in> set l1 then occur_count + 1 else occur_count)"

definition get_recall :: "string list \<Rightarrow> string list \<Rightarrow> error + rat" where
  "get_recall l1 l2 = truediv (count_loop l1 l2 0) (of_nat (length l1))"

definition get_precision :: "string list \<Rightarrow> string list \<Rightarrow> error + rat" where
  "get_precision l1 l2 = truediv (count_loop l1 l2 0) (of_nat (length l2))"

definition get_f1 :: "rat \<Rightarrow> rat \<Rightarrow> rat" where
  "get_f1 r p = (if r + p = 0 then 0 else (2 * p * r) / (p + r))"

subsection \<open>Relaxed R-precision\<close>

text \<open>
  The loop of \<^verbatim>\<open>get_Rprecision\<close>:
  \<^verbatim>\<open>for w1 in phrase2.split(): if w1 in phrase1: occur_count += 1\<close>.
  The body is the same in both source files.
\<close>

fun word_loop :: "string \<Rightarrow> string list \<Rightarrow> rat \<Rightarrow> rat" where
  "word_loop phrase1 [] occur_count = occur_count"
| "word_loop phrase1 (w1 # ws) occur_count =
     word_loop phrase1 ws (if str_contains phrase1 w1 then occur_count + 1 else occur_count)"

definition get_Rprecision :: "string \<Rightarrow> string \<Rightarrow> error + rat" where
  "get_Rprecision phrase1 phrase2 =
     truediv (word_loop phrase1 (str_split phrase2) 0)
       (of_nat (max (length (str_split phrase2)) (length (str_split phrase1))))"

text \<open>
  \<^verbatim>\<open>max(xs)\<close> on a list of numbers: \<^verbatim>\<open>ValueError\<close> on the empty list, otherwise the
  largest element, found by one pass that replaces the candidate by every larger item.
\<close>

definition py_max :: "rat list \<Rightarrow> error + rat" where
  "py_max xs =
     (case xs of
        [] \<Rightarrow> Inl ValueError
      | x # rest \<Rightarrow> Inr (fold (\<lambda>item best. if item > best then item else best) rest x))"

text \<open>
  \<^verbatim>\<open>sum(xs)\<close>: adds the items to 0 from left to right, here without rounding
  (\<open>py_sum_float\<close> below rounds every addition).
\<close>

definition py_sum :: "rat list \<Rightarrow> rat" where
  "py_sum xs = fold (\<lambda>item total. total + item) xs 0"

text \<open>The inner loop of \<^verbatim>\<open>get_all_Rprecision\<close>, over the predicted phrases.\<close>

fun rscores_loop :: "string \<Rightarrow> string list \<Rightarrow> rat list \<Rightarrow> error + rat list" where
  "rscores_loop gphrase [] rscores = Inr rscores"
| "rscores_loop gphrase (pphrase # ps) rscores =
     (case get_Rprecision gphrase pphrase of
        Inl e \<Rightarrow> Inl e
      | Inr v \<Rightarrow> rscores_loop gphrase ps (rscores @ [v]))"

text \<open>The outer loop, over the gold phrases.\<close>

fun scores_loop :: "string list \<Rightarrow> string list \<Rightarrow> rat list \<Rightarrow> error + rat list" where
  "scores_loop [] predicted_keywords scores = Inr scores"
| "scores_loop (gphrase # gs) predicted_keywords scores =
     (case rscores_loop gphrase predicted_keywords [] of
        Inl e \<Rightarrow> Inl e
      | Inr rscores \<Rightarrow>
         (case py_max rscores of
            Inl e \<Rightarrow> Inl e
          | Inr m \<Rightarrow> scores_loop gs predicted_keywords (scores @ [m])))"

definition get_all_Rprecision :: "string list \<Rightarrow> string list \<Rightarrow> error + rat" where
  "get_all_Rprecision gold_keywords predicted_keywords =
     (case scores_loop gold_keywords predicted_keywords [] of
        Inl e \<Rightarrow> Inl e
      | Inr scores \<Rightarrow> truediv (py_sum scores) (of_nat (length scores)))"

subsection \<open>Binary floating point\<close>












subsection \<open>Score tuples\<close>

type_synonym scores = "rat \<times> rat \<times> rat \<times> rat"

definition get_scores :: "string list \<Rightarrow> string list \<Rightarrow> error + scores" where
  "get_scores gold_keywords predicted_keywords =
     (case get_recall gold_keywords predicted_keywords of
        Inl e \<Rightarrow> Inl e
      | Inr recall \<Rightarrow>
         (case get_precision gold_keywords predicted_keywords of
            Inl e \<Rightarrow> Inl e
          | Inr precision \<Rightarrow>
             (let f1 = get_f1 recall precision in
              case get_all_Rprecision gold_keywords predicted_keywords of
                Inl e \<Rightarrow> Inl e
              | Inr Rprecision \<Rightarrow> Inr (f1, recall, precision, Rprecision))))"

text \<open>
  \<open>adjusted_metrics\<close> is the empty list, a list of four zeros, or the tuple that
  \<^verbatim>\<open>get_scores\<close> returns; the model holds it as the list of its items.
\<close>

definition items :: "scores \<Rightarrow> rat list" where
  "items t = (case t of (f1, recall, precision, Rprecision) \<Rightarrow> [f1, recall, precision, Rprecision])"

text \<open>The loop \<^verbatim>\<open>for each in gold_keywords: if each in text: adjusted_gold.append(each)\<close>.\<close>

fun adjust_loop :: "string list \<Rightarrow> string \<Rightarrow> string list \<Rightarrow> string list" where
  "adjust_loop [] text adjusted_gold = adjusted_gold"
| "adjust_loop (each # gs) text adjusted_gold =
     adjust_loop gs text (if str_contains text each then adjusted_gold @ [each] else adjusted_gold)"

text \<open>\<^verbatim>\<open>get_all_scores\<close> of \<^verbatim>\<open>key_eval.py\<close>; \<^verbatim>\<open>if text:\<close> holds for a non-empty string.\<close>

definition get_all_scores ::
  "string list \<Rightarrow> string list \<Rightarrow> string \<Rightarrow> bool \<Rightarrow> error + (scores \<times> rat list)" where
  "get_all_scores gold_keywords predicted_keywords text adjust =
     (case get_scores gold_keywords predicted_keywords of
        Inl e \<Rightarrow> Inl e
      | Inr metrics \<Rightarrow>
         (if adjust \<and> text \<noteq> []
          then (let adjusted_gold = adjust_loop gold_keywords text [] in
                if length adjusted_gold < 1 then Inr (metrics, [])
                else (case get_scores adjusted_gold predicted_keywords of
                        Inl e \<Rightarrow> Inl e
                      | Inr adjusted_metrics \<Rightarrow> Inr (metrics, items adjusted_metrics)))
          else Inr (metrics, [])))"

text \<open>
  \<^verbatim>\<open>get_all_scores\<close> of \<^verbatim>\<open>KeyEval.py\<close>: the same, except for \<^verbatim>\<open>[0.0]*4\<close> where no gold keyword
  occurs in the text.
\<close>

definition KeyEval_get_all_scores ::
  "string list \<Rightarrow> string list \<Rightarrow> string \<Rightarrow> bool \<Rightarrow> error + (scores \<times> rat list)" where
  "KeyEval_get_all_scores gold_keywords predicted_keywords text adjust =
     (case get_scores gold_keywords predicted_keywords of
        Inl e \<Rightarrow> Inl e
      | Inr metrics \<Rightarrow>
         (if adjust \<and> text \<noteq> []
          then (let adjusted_gold = adjust_loop gold_keywords text [] in
                if length adjusted_gold < 1 then Inr (metrics, replicate 4 0)
                else (case get_scores adjusted_gold predicted_keywords of
                        Inl e \<Rightarrow> Inl e
                      | Inr adjusted_metrics \<Rightarrow> Inr (metrics, items adjusted_metrics)))
          else Inr (metrics, [])))"

subsection \<open>The keyword parser of \<^verbatim>\<open>get_key_abs\<close>\<close>

text \<open>
  The choice of the delimiter, an \<^verbatim>\<open>if\<close>/\<^verbatim>\<open>elif\<close> chain on the raw keyword field. \<^verbatim>\<open>key_eval.py\<close>
  tries the semicolon, the comma and the tab; \<^verbatim>\<open>KeyEval.py\<close> has no branch for the tab.
\<close>

definition split_field :: "string \<Rightarrow> string list" where
  "split_field raw =
     (if str_contains raw '';'' then str_split_sep raw '';''
      else if str_contains raw '','' then str_split_sep raw '',''
      else if str_contains raw [CHR 0x09] then str_split_sep raw [CHR 0x09]
      else str_split_sep raw '' to'')"

definition KeyEval_split_field :: "string \<Rightarrow> string list" where
  "KeyEval_split_field raw =
     (if str_contains raw '';'' then str_split_sep raw '';''
      else if str_contains raw '','' then str_split_sep raw '',''
      else str_split_sep raw '' to'')"

text \<open>
  The loop over the fragments, building the list \<open>new\<close>. The normalizer \<^verbatim>\<open>clean\<close> comes
  from \<^verbatim>\<open>Datasets.utils\<close> and is a parameter here.
\<close>

fun key_loop :: "(string \<Rightarrow> string) \<Rightarrow> string list \<Rightarrow> string list \<Rightarrow> string list" where
  "key_loop clean [] new = new"
| "key_loop clean (key # keyword) new =
     (if str_contains key ''---''
      then key_loop clean keyword (new @ map clean (str_split_sep key ''---''))
      else key_loop clean keyword (new @ [clean key]))"

definition parse_keywords :: "(string \<Rightarrow> string) \<Rightarrow> string \<Rightarrow> string list" where
  "parse_keywords clean raw = key_loop clean (split_field raw) []"

definition KeyEval_parse_keywords :: "(string \<Rightarrow> string) \<Rightarrow> string \<Rightarrow> string list" where
  "KeyEval_parse_keywords clean raw = key_loop clean (KeyEval_split_field raw) []"

subsection \<open>The document loop of \<^verbatim>\<open>eval_file\<close>\<close>

text \<open>
  The model is the call \<^verbatim>\<open>model.get_keywords(abstract, n=top_n)\<close>: it raises or returns a
  sequence whose first item is the list of predicted keywords. The loop runs over the
  documents (gold keywords and abstract, aligned by index) and updates the two lists
  \<open>all_scores\<close> and \<open>all_scores_adjust\<close>. Only the call of \<^verbatim>\<open>get_all_scores\<close> is inside the
  \<^verbatim>\<open>try\<close>; \<^verbatim>\<open>except Exception\<close> catches every value of type \<open>error\<close>. The lines written to the
  log file and the timers are left out.
\<close>

type_synonym 'x model = "string \<Rightarrow> nat \<Rightarrow> error + (string list \<times> 'x)"

text \<open>
  The \<^verbatim>\<open>try\<close> block: the pair \<^verbatim>\<open>scores\<close>, which is \<^verbatim>\<open>[[0.0]*4, [0.0]*4]\<close> when
  \<^verbatim>\<open>get_all_scores\<close> raises.
\<close>

definition try_scores :: "string list \<Rightarrow> string list \<Rightarrow> string \<Rightarrow> rat list \<times> rat list" where
  "try_scores gold predicted abstract =
     (case get_all_scores gold predicted abstract True of
        Inl e \<Rightarrow> (replicate 4 0, replicate 4 0)
      | Inr (metrics, adjusted_metrics) \<Rightarrow> (items metrics, adjusted_metrics))"

fun eval_loop ::
  "'x model \<Rightarrow> nat \<Rightarrow> (string list \<times> string) list \<Rightarrow> rat list list \<Rightarrow> rat list list
     \<Rightarrow> error + (rat list list \<times> rat list list)" where
  "eval_loop model top_n [] all_scores all_scores_adjust = Inr (all_scores, all_scores_adjust)"
| "eval_loop model top_n ((gold, abstract) # docs) all_scores all_scores_adjust =
     (case model abstract top_n of
        Inl e \<Rightarrow> Inl e
      | Inr predicted_keywords \<Rightarrow>
         (let scores = try_scores gold (fst predicted_keywords) abstract
          in eval_loop model top_n docs (all_scores @ [fst scores])
               (if snd scores \<noteq> [] then all_scores_adjust @ [snd scores]
                else all_scores_adjust)))"

definition eval_file :: "'x model \<Rightarrow> nat \<Rightarrow> (string list \<times> string) list
     \<Rightarrow> error + (rat list list \<times> rat list list)" where
  "eval_file model top_n docs = eval_loop model top_n docs [] []"

subsection \<open>Two models for evaluating the loop\<close>

text \<open>
  A model whose \<^verbatim>\<open>get_keywords\<close> raises on every abstract, and a model that returns the same
  keywords for every abstract.
\<close>

definition raising_model :: "unit model" where
  "raising_model abstract n = Inl (Exception ''get_keywords failed'')"

definition constant_model :: "string list \<Rightarrow> unit model" where
  "constant_model keywords abstract n = Inr (keywords, ())"

section \<open>Properties\<close>

subsection \<open>The built-in operations\<close>

text \<open>\<open>str_contains\<close> is the contiguous-sublist relation of the list library.\<close>

lemma str_contains_sublist: "str_contains s sub \<longleftrightarrow> sublist sub s"
  by (induction s) (auto simp: sublist_Cons_right)

lemma split_words_Nil:
  "split_words cur s = [] \<longleftrightarrow> cur = [] \<and> (\<forall>c\<in>set s. py_isspace c)"
  by (induction s arbitrary: cur) auto

lemma str_split_Nil: "str_split s = [] \<longleftrightarrow> (\<forall>c\<in>set s. py_isspace c)"
  by (simp add: str_split_def split_words_Nil)

lemma py_max_eq: "xs \<noteq> [] \<Longrightarrow> py_max xs = Inr (Max (set xs))"
proof -
  have m: "(\<lambda>item best. if item > best then item else best) = (max :: rat \<Rightarrow> rat \<Rightarrow> rat)"
    by (intro ext) auto
  assume "xs \<noteq> []"
  then obtain x rest where "xs = x # rest" by (cases xs) auto
  moreover have "fold max rest x = Max (set (x # rest))"
    by (rule Max.set_eq_fold [symmetric])
  ultimately show ?thesis
    by (simp add: py_max_def m)
qed

lemma fold_add: "fold (\<lambda>item total. total + item) xs a = (a :: rat) + sum_list xs"
  by (induction xs arbitrary: a) auto

lemma py_sum_eq: "py_sum xs = sum_list xs"
  by (simp add: py_sum_def fold_add)

subsection \<open>Recall and precision\<close>

lemma count_loop_eq:
  "count_loop l1 l2 acc = acc + of_nat (length (filter (\<lambda>x. x \<in> set l1) l2))"
  by (induction l2 arbitrary: acc) auto

text \<open>
  C1. \<^verbatim>\<open>get_recall(gold, predicted)\<close> is the number of items of \<open>predicted\<close> that occur in
  \<open>gold\<close>, each occurrence in \<open>predicted\<close> counted, divided by \<open>len(gold)\<close>;
  \<^verbatim>\<open>get_precision\<close> divides the same count by \<open>len(predicted)\<close>. On an empty \<open>gold\<close>
  (respectively \<open>predicted\<close>) the function raises \<^verbatim>\<open>ZeroDivisionError\<close>.
\<close>

theorem recall_precision_formula:
  "get_recall gold predicted =
     (if gold = [] then Inl ZeroDivisionError
      else Inr (of_nat (length (filter (\<lambda>x. x \<in> set gold) predicted)) / of_nat (length gold)))
   \<and> get_precision gold predicted =
     (if predicted = [] then Inl ZeroDivisionError
      else Inr (of_nat (length (filter (\<lambda>x. x \<in> set gold) predicted))
                / of_nat (length predicted)))"
  by (simp add: get_recall_def get_precision_def truediv_def count_loop_eq)

theorem recall_precision_formula_witness:
  "get_recall [''a'', ''b''] [''a'', ''c'', ''a''] = Inr 1
   \<and> get_precision [''a'', ''b''] [''a'', ''c'', ''a''] = Inr (2 / 3)
   \<and> get_recall [] [''a''] = Inl ZeroDivisionError
   \<and> get_precision [''a''] [] = Inl ZeroDivisionError"
  using recall_precision_formula [of "[''a'', ''b'']" "[''a'', ''c'', ''a'']"]
    recall_precision_formula [of "[]" "[''a'']"]
    recall_precision_formula [of "[''a'']" "[]"]
  by simp

subsection \<open>Relaxed R-precision of two phrases\<close>

lemma word_loop_eq:
  "word_loop phrase1 ws acc = acc + of_nat (length (filter (str_contains phrase1) ws))"
  by (induction ws arbitrary: acc) auto

lemma get_Rprecision_eq:
  "get_Rprecision phrase1 phrase2 =
     (if str_split phrase1 = [] \<and> str_split phrase2 = [] then Inl ZeroDivisionError
      else Inr (of_nat (length (filter (str_contains phrase1) (str_split phrase2)))
                / of_nat (max (length (str_split phrase2)) (length (str_split phrase1)))))"
  by (auto simp: get_Rprecision_def truediv_def word_loop_eq)

text \<open>
  C5. \<^verbatim>\<open>get_Rprecision(phrase1, phrase2)\<close> is the number of whitespace-split tokens of
  \<open>phrase2\<close> that occur in \<open>phrase1\<close> as a substring, divided by the larger of the two
  token counts (the division raising when that is zero). For \<^verbatim>\<open>"a b c"\<close> and \<^verbatim>\<open>"a b"\<close> it is
  2/3; the token \<^verbatim>\<open>"b"\<close> counts against \<^verbatim>\<open>"abc"\<close>, of which it is a substring and not a token.
\<close>

theorem get_Rprecision_formula:
  "get_Rprecision phrase1 phrase2 =
     (if max (length (str_split phrase2)) (length (str_split phrase1)) = 0
      then Inl ZeroDivisionError
      else Inr (of_nat (length (filter (\<lambda>w. sublist w phrase1) (str_split phrase2)))
                / of_nat (max (length (str_split phrase2)) (length (str_split phrase1)))))
   \<and> get_Rprecision ''a b c'' ''a b'' = Inr (2 / 3)
   \<and> get_Rprecision ''abc'' ''b'' = Inr 1"
proof (intro conjI)
  show "get_Rprecision phrase1 phrase2 =
     (if max (length (str_split phrase2)) (length (str_split phrase1)) = 0
      then Inl ZeroDivisionError
      else Inr (of_nat (length (filter (\<lambda>w. sublist w phrase1) (str_split phrase2)))
                / of_nat (max (length (str_split phrase2)) (length (str_split phrase1)))))"
    by (auto simp: get_Rprecision_def truediv_def word_loop_eq str_contains_sublist [abs_def])
  show "get_Rprecision ''a b c'' ''a b'' = Inr (2 / 3)"
    by (simp add: get_Rprecision_def truediv_def str_split_def py_isspace_def)
  show "get_Rprecision ''abc'' ''b'' = Inr 1"
    by (simp add: get_Rprecision_def truediv_def str_split_def py_isspace_def)
qed

theorem get_Rprecision_formula_witness:
  "get_Rprecision ''deep learning'' ''machine learning'' = Inr (1 / 2)
   \<and> get_Rprecision '' '' '''' = Inl ZeroDivisionError"
  using get_Rprecision_formula [of "''deep learning''" "''machine learning''"]
    get_Rprecision_formula [of "'' ''" "''''"]
  by (simp add: str_split_def py_isspace_def sublist_code)

text \<open>
  C10. \<^verbatim>\<open>get_Rprecision\<close> raises \<^verbatim>\<open>ZeroDivisionError\<close> exactly when neither phrase has a
  token, that is, when each is empty or made of whitespace only. On every other pair it
  returns a value, which is 0 when only \<open>phrase2\<close> has no token.
\<close>

theorem get_Rprecision_raises_iff:
  "(get_Rprecision phrase1 phrase2 = Inl ZeroDivisionError
      \<longleftrightarrow> str_split phrase1 = [] \<and> str_split phrase2 = [])
   \<and> (\<not> (str_split phrase1 = [] \<and> str_split phrase2 = [])
      \<longrightarrow> (\<exists>v. get_Rprecision phrase1 phrase2 = Inr v))
   \<and> (str_split phrase2 = [] \<and> str_split phrase1 \<noteq> []
      \<longrightarrow> get_Rprecision phrase1 phrase2 = Inr 0)
   \<and> (str_split phrase1 = [] \<longleftrightarrow> (\<forall>c\<in>set phrase1. py_isspace c))"
proof (intro conjI)
  show "get_Rprecision phrase1 phrase2 = Inl ZeroDivisionError
      \<longleftrightarrow> str_split phrase1 = [] \<and> str_split phrase2 = []"
    by (simp add: get_Rprecision_eq)
  show "\<not> (str_split phrase1 = [] \<and> str_split phrase2 = [])
      \<longrightarrow> (\<exists>v. get_Rprecision phrase1 phrase2 = Inr v)"
    by (simp add: get_Rprecision_eq)
  show "str_split phrase2 = [] \<and> str_split phrase1 \<noteq> []
      \<longrightarrow> get_Rprecision phrase1 phrase2 = Inr 0"
    by (simp add: get_Rprecision_eq)
  show "str_split phrase1 = [] \<longleftrightarrow> (\<forall>c\<in>set phrase1. py_isspace c)"
    by (rule str_split_Nil)
qed

theorem get_Rprecision_raises_iff_witness:
  "get_Rprecision [CHR 0x20, CHR 0x09] '''' = Inl ZeroDivisionError
   \<and> str_split ''a b'' \<noteq> [] \<and> str_split '' '' = []
   \<and> get_Rprecision ''a b'' '' '' = Inr 0
   \<and> (\<exists>v. get_Rprecision '' '' ''a b'' = Inr v)"
  using get_Rprecision_raises_iff [of "[CHR 0x20, CHR 0x09]" "''''"]
    get_Rprecision_raises_iff [of "''a b''" "'' ''"]
    get_Rprecision_raises_iff [of "'' ''" "''a b''"]
  by (simp add: str_split_def py_isspace_def)

subsection \<open>Aggregate R-precision\<close>

lemma rscores_loop_eq:
  "rscores_loop g ps acc =
     (if \<exists>p\<in>set ps. str_split g = [] \<and> str_split p = [] then Inl ZeroDivisionError
      else Inr (acc @ map (\<lambda>p. projr (get_Rprecision g p)) ps))"
  by (induction ps arbitrary: acc) (auto simp: get_Rprecision_eq)

lemma scores_loop_eq:
  assumes "predicted \<noteq> []"
  shows "scores_loop gs predicted acc =
     (if \<exists>g\<in>set gs. \<exists>p\<in>set predicted. str_split g = [] \<and> str_split p = []
      then Inl ZeroDivisionError
      else Inr (acc @ map (\<lambda>g. Max ((\<lambda>p. projr (get_Rprecision g p)) ` set predicted)) gs))"
  using assms
  by (induction gs arbitrary: acc) (auto simp: rscores_loop_eq py_max_eq)

lemma scores_loop_no_predicted: "gs \<noteq> [] \<Longrightarrow> scores_loop gs [] acc = Inl ValueError"
  by (cases gs) (auto simp: py_max_def)

lemma get_all_Rprecision_eq:
  "get_all_Rprecision gold predicted =
     (if gold = [] then Inl ZeroDivisionError
      else if predicted = [] then Inl ValueError
      else if \<exists>g\<in>set gold. \<exists>p\<in>set predicted. str_split g = [] \<and> str_split p = []
      then Inl ZeroDivisionError
      else Inr (sum_list (map (\<lambda>g. Max ((\<lambda>p. projr (get_Rprecision g p)) ` set predicted)) gold)
                / of_nat (length gold)))"
proof (cases "gold = []")
  case True
  then show ?thesis by (simp add: get_all_Rprecision_def py_sum_def truediv_def)
next
  case gold: False
  show ?thesis
  proof (cases "predicted = []")
    case True
    with gold show ?thesis by (simp add: get_all_Rprecision_def scores_loop_no_predicted)
  next
    case False
    with gold show ?thesis
      by (simp add: get_all_Rprecision_def scores_loop_eq py_sum_eq truediv_def)
  qed
qed

lemma get_Rprecision_cases:
  "(\<exists>v. get_Rprecision g p = Inr v) \<longleftrightarrow> \<not> (str_split g = [] \<and> str_split p = [])"
  "get_Rprecision g p = Inl e \<longleftrightarrow> e = ZeroDivisionError \<and> str_split g = [] \<and> str_split p = []"
  by (auto simp: get_Rprecision_eq)

text \<open>
  C6. \<^verbatim>\<open>get_all_Rprecision(gold, predicted)\<close> raises \<^verbatim>\<open>ZeroDivisionError\<close> on an empty \<open>gold\<close>
  and \<^verbatim>\<open>ValueError\<close> (the \<^verbatim>\<open>max\<close> of an empty list) on an empty \<open>predicted\<close> with a non-empty
  \<open>gold\<close>. With both lists non-empty it is the mean, over the gold phrases, of the largest
  \<^verbatim>\<open>get_Rprecision\<close> of the gold phrase against the predicted phrases, when every one of
  these calls returns; an exception of one of them is the exception of the whole.
\<close>

theorem get_all_Rprecision_average_of_maxima:
  "(gold = [] \<longrightarrow> get_all_Rprecision gold predicted = Inl ZeroDivisionError)
   \<and> (gold \<noteq> [] \<and> predicted = [] \<longrightarrow> get_all_Rprecision gold predicted = Inl ValueError)
   \<and> (gold \<noteq> [] \<and> predicted \<noteq> []
        \<and> (\<forall>g\<in>set gold. \<forall>p\<in>set predicted. \<exists>v. get_Rprecision g p = Inr v)
      \<longrightarrow> get_all_Rprecision gold predicted =
            Inr (sum_list (map (\<lambda>g. Max ((\<lambda>p. projr (get_Rprecision g p)) ` set predicted)) gold)
                 / of_nat (length gold)))
   \<and> (gold \<noteq> [] \<and> predicted \<noteq> []
        \<and> (\<exists>g\<in>set gold. \<exists>p\<in>set predicted. get_Rprecision g p = Inl e)
      \<longrightarrow> get_all_Rprecision gold predicted = Inl e)"
proof (intro conjI impI)
  assume "gold = []"
  then show "get_all_Rprecision gold predicted = Inl ZeroDivisionError"
    by (simp add: get_all_Rprecision_eq)
next
  assume "gold \<noteq> [] \<and> predicted = []"
  then show "get_all_Rprecision gold predicted = Inl ValueError"
    by (simp add: get_all_Rprecision_eq)
next
  assume a: "gold \<noteq> [] \<and> predicted \<noteq> []
    \<and> (\<forall>g\<in>set gold. \<forall>p\<in>set predicted. \<exists>v. get_Rprecision g p = Inr v)"
  then have "\<not> (\<exists>g\<in>set gold. \<exists>p\<in>set predicted. str_split g = [] \<and> str_split p = [])"
    using get_Rprecision_cases(1) by blast
  with a show "get_all_Rprecision gold predicted =
      Inr (sum_list (map (\<lambda>g. Max ((\<lambda>p. projr (get_Rprecision g p)) ` set predicted)) gold)
           / of_nat (length gold))"
    by (simp add: get_all_Rprecision_eq)
next
  assume a: "gold \<noteq> [] \<and> predicted \<noteq> []
    \<and> (\<exists>g\<in>set gold. \<exists>p\<in>set predicted. get_Rprecision g p = Inl e)"
  then have "e = ZeroDivisionError"
    and "\<exists>g\<in>set gold. \<exists>p\<in>set predicted. str_split g = [] \<and> str_split p = []"
    by (auto simp: get_Rprecision_cases)
  with a show "get_all_Rprecision gold predicted = Inl e"
    by (simp add: get_all_Rprecision_eq)
qed

lemma get_Rprecision_examples:
  "get_Rprecision ''a b c'' ''a b'' = Inr (2 / 3)"
  "get_Rprecision ''a b c'' ''d e'' = Inr 0"
  "get_Rprecision ''d'' ''a b'' = Inr 0"
  "get_Rprecision ''d'' ''d e'' = Inr (1 / 2)"
  "get_Rprecision '''' '' '' = Inl ZeroDivisionError"
  by (simp_all add: get_Rprecision_def truediv_def str_split_def py_isspace_def)

theorem get_all_Rprecision_average_of_maxima_witness:
  "get_all_Rprecision [''a b c'', ''d''] [''a b'', ''d e''] = Inr (7 / 12)
   \<and> get_all_Rprecision [] [''a b''] = Inl ZeroDivisionError
   \<and> get_all_Rprecision [''a b''] [] = Inl ValueError
   \<and> get_all_Rprecision [''a'', ''''] ['' ''] = Inl ZeroDivisionError"
proof -
  have returns:
    "\<forall>g\<in>set [''a b c'', ''d'']. \<forall>p\<in>set [''a b'', ''d e'']. \<exists>v. get_Rprecision g p = Inr v"
    by (simp add: get_Rprecision_cases(1) str_split_def py_isspace_def)
  show ?thesis
    using returns
      get_all_Rprecision_average_of_maxima [of "[''a b c'', ''d'']" "[''a b'', ''d e'']"]
      get_all_Rprecision_average_of_maxima [of "[]" "[''a b'']"]
      get_all_Rprecision_average_of_maxima [of "[''a b'']" "[]"]
      get_all_Rprecision_average_of_maxima [of "[''a'', '''']" "['' '']" ZeroDivisionError]
    by (simp add: get_Rprecision_examples)
qed

subsection \<open>Reordering the lists\<close>









text \<open>
  Without rounding the order of the gold list would not matter either: the sum of the
  scores is then the same in every order.
\<close>

lemma get_all_Rprecision_exact_permutation:
  assumes "gold \<noteq> []" and "predicted \<noteq> []"
    and "mset gold' = mset gold" and "mset predicted' = mset predicted"
  shows "get_all_Rprecision gold' predicted' = get_all_Rprecision gold predicted"
proof -
  have sg: "set gold' = set gold" and sp: "set predicted' = set predicted"
    using assms(3,4) by (auto dest: mset_eq_setD)
  have lg: "length gold' = length gold"
    using assms(3) by (rule mset_eq_length)
  have ne: "gold' \<noteq> []" "predicted' \<noteq> []"
    using assms sg sp by auto
  have "mset (map f gold') = mset (map f gold)" for f :: "string \<Rightarrow> rat"
    using assms(3) by simp
  then have "sum_list (map f gold') = sum_list (map f gold)" for f :: "string \<Rightarrow> rat"
    by (metis sum_mset_sum_list)
  then show ?thesis
    using assms(1,2) ne by (simp add: get_all_Rprecision_eq sg sp lg)
qed

subsection \<open>Score tuples\<close>

text \<open>
  C2. The scores are not confined to the interval from 0 to 1: every occurrence of a
  predicted keyword that is in \<open>gold\<close> counts, so a keyword predicted twice against a gold
  list of one item gives the recall 2 and the F1 score 4/3.
\<close>

theorem get_scores_duplicates:
  "get_scores [''a''] [''a'', ''a''] = Inr (4 / 3, 2, 1, 1)"
  by (simp add: get_scores_def get_recall_def get_precision_def get_f1_def get_all_Rprecision_def
      get_Rprecision_def truediv_def py_max_def py_sum_def str_split_def py_isspace_def)

text \<open>
  What holds of the scores that \<^verbatim>\<open>get_scores\<close> returns: none is negative, the precision
  and the R-precision are at most 1, and so are the recall and the F1 score when no
  keyword is predicted twice.
\<close>

lemma unit_quotient:
  "a \<le> m \<Longrightarrow> 0 < m \<Longrightarrow> 0 \<le> (of_nat a :: rat) / of_nat m \<and> (of_nat a :: rat) / of_nat m \<le> 1"
  by (simp add: divide_le_eq_1_pos)

lemma count_distinct_le:
  assumes "distinct predicted"
  shows "length (filter (\<lambda>x. x \<in> set gold) predicted) \<le> length gold"
proof -
  let ?ys = "filter (\<lambda>x. x \<in> set gold) predicted"
  have "distinct ?ys"
    using assms by simp
  then have "card (set ?ys) = length ?ys"
    by (rule distinct_card)
  moreover have "card (set ?ys) \<le> card (set gold)"
    by (rule card_mono) auto
  moreover have "card (set gold) \<le> length gold"
    by (rule card_length)
  ultimately show ?thesis by linarith
qed

lemma get_Rprecision_bounds:
  assumes "get_Rprecision g p = Inr v"
  shows "0 \<le> v \<and> v \<le> 1"
proof -
  let ?a = "length (filter (str_contains g) (str_split p))"
  let ?m = "max (length (str_split p)) (length (str_split g))"
  from assms have v: "v = of_nat ?a / of_nat ?m" and m: "0 < ?m"
    by (auto simp: get_Rprecision_eq less_max_iff_disj split: if_splits)
  have "?a \<le> ?m"
    using length_filter_le [of "str_contains g" "str_split p"] by linarith
  then show ?thesis
    unfolding v using m by (rule unit_quotient)
qed

lemma sum_list_unit_bounds:
  "\<forall>x\<in>set xs. 0 \<le> x \<and> x \<le> (1 :: rat)
     \<Longrightarrow> 0 \<le> sum_list xs \<and> sum_list xs \<le> of_nat (length xs)"
  by (induction xs) auto

lemma get_f1_bounds:
  assumes "0 \<le> r" and "0 \<le> p"
  shows "0 \<le> get_f1 r p" and "r \<le> 1 \<Longrightarrow> p \<le> 1 \<Longrightarrow> get_f1 r p \<le> 1"
proof -
  show "0 \<le> get_f1 r p"
    using assms by (simp add: get_f1_def)
  assume r1: "r \<le> 1" and p1: "p \<le> 1"
  have "p * r \<le> p * 1" using r1 assms(2) by (rule mult_left_mono)
  moreover have "p * r \<le> 1 * r" using p1 assms(1) by (rule mult_right_mono)
  ultimately have le: "2 * p * r \<le> p + r" by simp
  show "get_f1 r p \<le> 1"
  proof (cases "r + p = 0")
    case True
    then show ?thesis by (simp add: get_f1_def)
  next
    case False
    with assms have "0 < p + r" by linarith
    with le False show ?thesis
      by (simp add: get_f1_def divide_le_eq_1_pos)
  qed
qed


lemma Max_unit_bounds:
  assumes "finite A" and "A \<noteq> {}" and "\<forall>x\<in>A. 0 \<le> x \<and> x \<le> (1 :: rat)"
  shows "0 \<le> Max A \<and> Max A \<le> 1"
proof -
  have "Max A \<in> A" using assms(1,2) by (rule Max_in)
  with assms(3) show ?thesis by (rule bspec)
qed

lemma quotient_unit_bounds:
  assumes "0 \<le> (s :: rat)" and "s \<le> of_nat n" and "0 < n"
  shows "0 \<le> s / of_nat n \<and> s / of_nat n \<le> 1"
proof
  show "0 \<le> s / of_nat n" using assms(1) by simp
  have "0 < (of_nat n :: rat)" using assms(3) by simp
  then show "s / of_nat n \<le> 1" using assms(2) by (simp only: divide_le_eq_1_pos)
qed

lemma get_all_Rprecision_Inr:
  assumes "get_all_Rprecision gold predicted = Inr v"
  shows "gold \<noteq> []" and "predicted \<noteq> []"
    and "\<not> (\<exists>g\<in>set gold. \<exists>p\<in>set predicted. str_split g = [] \<and> str_split p = [])"
    and "v = sum_list (map (\<lambda>g. Max ((\<lambda>p. projr (get_Rprecision g p)) ` set predicted)) gold)
             / of_nat (length gold)"
proof -
  show gold: "gold \<noteq> []"
    using assms by (rule_tac ccontr) (simp add: get_all_Rprecision_eq)
  show pred: "predicted \<noteq> []"
    using assms gold by (rule_tac ccontr) (simp add: get_all_Rprecision_eq)
  show ok: "\<not> (\<exists>g\<in>set gold. \<exists>p\<in>set predicted. str_split g = [] \<and> str_split p = [])"
    using assms gold pred by (rule_tac ccontr) (simp add: get_all_Rprecision_eq)
  have "get_all_Rprecision gold predicted =
      Inr (sum_list (map (\<lambda>g. Max ((\<lambda>p. projr (get_Rprecision g p)) ` set predicted)) gold)
           / of_nat (length gold))"
    by (subst get_all_Rprecision_eq)
      (simp only: if_not_P [OF gold] if_not_P [OF pred] if_not_P [OF ok])
  with assms
  show "v = sum_list (map (\<lambda>g. Max ((\<lambda>p. projr (get_Rprecision g p)) ` set predicted)) gold)
             / of_nat (length gold)"
    by simp
qed

lemma get_all_Rprecision_bounds:
  assumes "get_all_Rprecision gold predicted = Inr v"
  shows "0 \<le> v \<and> v \<le> 1"
proof -
  let ?f = "\<lambda>g. Max ((\<lambda>p. projr (get_Rprecision g p)) ` set predicted)"
  note s = get_all_Rprecision_Inr [OF assms]
  have inner: "0 \<le> ?f g \<and> ?f g \<le> 1" if g: "g \<in> set gold" for g
  proof (rule Max_unit_bounds)
    show "finite ((\<lambda>p. projr (get_Rprecision g p)) ` set predicted)"
      by simp
    show "(\<lambda>p. projr (get_Rprecision g p)) ` set predicted \<noteq> {}"
      using s(2) by simp
    show "\<forall>x\<in>(\<lambda>p. projr (get_Rprecision g p)) ` set predicted. 0 \<le> x \<and> x \<le> 1"
    proof (intro ballI, elim imageE)
      fix x p
      assume x: "x = projr (get_Rprecision g p)" and p: "p \<in> set predicted"
      from s(3) g p have "\<not> (str_split g = [] \<and> str_split p = [])"
        by blast
      then obtain w where w: "get_Rprecision g p = Inr w"
        using get_Rprecision_cases(1) [of g p] by blast
      then have "0 \<le> w \<and> w \<le> 1"
        by (rule get_Rprecision_bounds)
      then show "0 \<le> x \<and> x \<le> 1"
        by (simp add: x w)
    qed
  qed
  have "\<forall>x\<in>set (map ?f gold). 0 \<le> x \<and> x \<le> 1"
  proof
    fix x
    assume "x \<in> set (map ?f gold)"
    then obtain g where "g \<in> set gold" and "x = ?f g"
      by (auto simp only: set_map)
    then show "0 \<le> x \<and> x \<le> 1"
      using inner [of g] by (simp only:)
  qed
  then have "0 \<le> sum_list (map ?f gold) \<and> sum_list (map ?f gold) \<le> of_nat (length (map ?f gold))"
    by (rule sum_list_unit_bounds)
  then have "0 \<le> sum_list (map ?f gold)" and "sum_list (map ?f gold) \<le> of_nat (length gold)"
    by (simp_all only: length_map)
  moreover have "0 < length gold"
    using s(1) by simp
  ultimately have "0 \<le> sum_list (map ?f gold) / of_nat (length gold)
      \<and> sum_list (map ?f gold) / of_nat (length gold) \<le> 1"
    by (rule quotient_unit_bounds)
  then show ?thesis
    by (simp only: s(4))
qed

lemma get_scores_Inr:
  assumes "get_scores gold predicted = Inr (f1, recall, precision, Rprecision)"
  shows "gold \<noteq> []" and "predicted \<noteq> []"
    and "recall = of_nat (length (filter (\<lambda>x. x \<in> set gold) predicted)) / of_nat (length gold)"
    and "precision
           = of_nat (length (filter (\<lambda>x. x \<in> set gold) predicted)) / of_nat (length predicted)"
    and "f1 = get_f1 recall precision"
    and "get_all_Rprecision gold predicted = Inr Rprecision"
proof -
  show g: "gold \<noteq> []"
    using assms by (rule_tac ccontr) (simp add: get_scores_def get_recall_def truediv_def)
  show p: "predicted \<noteq> []"
    using assms g
    by (rule_tac ccontr) (simp add: get_scores_def get_recall_def get_precision_def truediv_def)
  obtain v where v: "get_all_Rprecision gold predicted = Inr v"
    using assms g p
    by (cases "get_all_Rprecision gold predicted")
      (simp_all add: get_scores_def get_recall_def get_precision_def truediv_def)
  have "get_scores gold predicted =
      Inr (get_f1 (of_nat (length (filter (\<lambda>x. x \<in> set gold) predicted)) / of_nat (length gold))
             (of_nat (length (filter (\<lambda>x. x \<in> set gold) predicted)) / of_nat (length predicted)),
           of_nat (length (filter (\<lambda>x. x \<in> set gold) predicted)) / of_nat (length gold),
           of_nat (length (filter (\<lambda>x. x \<in> set gold) predicted)) / of_nat (length predicted),
           v)"
    using g p v
    by (simp add: get_scores_def get_recall_def get_precision_def truediv_def count_loop_eq)
  with assms have eqs:
    "f1 = get_f1 (of_nat (length (filter (\<lambda>x. x \<in> set gold) predicted)) / of_nat (length gold))
             (of_nat (length (filter (\<lambda>x. x \<in> set gold) predicted)) / of_nat (length predicted))"
    "recall = of_nat (length (filter (\<lambda>x. x \<in> set gold) predicted)) / of_nat (length gold)"
    "precision
       = of_nat (length (filter (\<lambda>x. x \<in> set gold) predicted)) / of_nat (length predicted)"
    "Rprecision = v"
    by auto
  from eqs v
  show "recall = of_nat (length (filter (\<lambda>x. x \<in> set gold) predicted)) / of_nat (length gold)"
    and "precision
           = of_nat (length (filter (\<lambda>x. x \<in> set gold) predicted)) / of_nat (length predicted)"
    and "f1 = get_f1 recall precision"
    and "get_all_Rprecision gold predicted = Inr Rprecision"
    by (simp_all only:)
qed



lemma get_scores_bounds:
  assumes "get_scores gold predicted = Inr (f1, recall, precision, Rprecision)"
  shows "0 \<le> f1 \<and> 0 \<le> recall \<and> 0 \<le> precision \<and> precision \<le> 1
         \<and> 0 \<le> Rprecision \<and> Rprecision \<le> 1
         \<and> (distinct predicted \<longrightarrow> f1 \<le> 1 \<and> recall \<le> 1)"
proof -
  let ?c = "length (filter (\<lambda>x. x \<in> set gold) predicted)"
  note s = get_scores_Inr [OF assms]
  have "?c \<le> length predicted"
    by (rule length_filter_le)
  moreover have "0 < length predicted"
    using s(2) by simp
  ultimately have "0 \<le> (of_nat ?c :: rat) / of_nat (length predicted)
      \<and> (of_nat ?c :: rat) / of_nat (length predicted) \<le> 1"
    by (rule unit_quotient)
  then have p: "0 \<le> precision \<and> precision \<le> 1"
    by (simp only: s(4))
  have r0: "0 \<le> recall"
    by (simp add: s(3))
  have r1: "recall \<le> 1" if d: "distinct predicted"
  proof -
    have "?c \<le> length gold"
      using d by (rule count_distinct_le)
    moreover have "0 < length gold"
      using s(1) by simp
    ultimately have "0 \<le> (of_nat ?c :: rat) / of_nat (length gold)
        \<and> (of_nat ?c :: rat) / of_nat (length gold) \<le> 1"
      by (rule unit_quotient)
    then show ?thesis
      by (simp only: s(3))
  qed
  have f0: "0 \<le> get_f1 recall precision"
    using r0 p by (intro get_f1_bounds(1)) simp_all
  have f1: "get_f1 recall precision \<le> 1" if d: "distinct predicted"
    using r0 p r1 [OF d] by (intro get_f1_bounds(2)) simp_all
  have rp: "0 \<le> Rprecision \<and> Rprecision \<le> 1"
    using s(6) by (rule get_all_Rprecision_bounds)
  show ?thesis
    using p r0 r1 f0 f1 rp by (simp only: s(5)) blast
qed

subsection \<open>Base and adjusted scores\<close>

lemma adjust_loop_eq:
  "adjust_loop gs text acc = acc @ filter (\<lambda>g. sublist g text) gs"
  by (induction gs arbitrary: acc) (auto simp: str_contains_sublist)

lemma get_scores_returns_iff:
  "(\<exists>m. get_scores gold predicted = Inr m) \<longleftrightarrow>
     gold \<noteq> [] \<and> predicted \<noteq> []
     \<and> \<not> (\<exists>g\<in>set gold. \<exists>p\<in>set predicted. str_split g = [] \<and> str_split p = [])"
  by (auto simp: get_scores_def get_recall_def get_precision_def truediv_def
      get_all_Rprecision_eq)

lemma get_scores_sublist_returns:
  assumes "get_scores gold predicted = Inr m" and "gold' \<noteq> []" and "set gold' \<subseteq> set gold"
  shows "\<exists>m'. get_scores gold' predicted = Inr m'"
proof -
  have "\<exists>m. get_scores gold predicted = Inr m" using assms(1) by blast
  then show ?thesis
    using assms(2,3) unfolding get_scores_returns_iff by blast
qed


lemma get_all_scores_eq:
  "get_all_scores gold predicted text adjust =
     (case get_scores gold predicted of
        Inl e \<Rightarrow> Inl e
      | Inr metrics \<Rightarrow>
          Inr (metrics,
               if adjust \<and> text \<noteq> [] \<and> filter (\<lambda>g. sublist g text) gold \<noteq> []
               then items (projr (get_scores (filter (\<lambda>g. sublist g text) gold) predicted))
               else []))"
proof (cases "get_scores gold predicted")
  case (Inl e)
  then show ?thesis by (simp add: get_all_scores_def)
next
  case (Inr metrics)
  show ?thesis
  proof (cases "adjust \<and> text \<noteq> [] \<and> filter (\<lambda>g. sublist g text) gold \<noteq> []")
    case True
    then obtain m' where "get_scores (filter (\<lambda>g. sublist g text) gold) predicted = Inr m'"
      using get_scores_sublist_returns [OF Inr, of "filter (\<lambda>g. sublist g text) gold"] by auto
    with Inr True show ?thesis
      by (simp add: get_all_scores_def adjust_loop_eq)
  next
    case False
    with Inr show ?thesis
      by (auto simp: get_all_scores_def adjust_loop_eq)
  qed
qed

lemma KeyEval_get_all_scores_eq:
  "KeyEval_get_all_scores gold predicted text adjust =
     (case get_scores gold predicted of
        Inl e \<Rightarrow> Inl e
      | Inr metrics \<Rightarrow>
          Inr (metrics,
               if adjust \<and> text \<noteq> []
               then (if filter (\<lambda>g. sublist g text) gold \<noteq> []
                     then items (projr (get_scores (filter (\<lambda>g. sublist g text) gold) predicted))
                     else [0, 0, 0, 0])
               else []))"
proof (cases "get_scores gold predicted")
  case (Inl e)
  then show ?thesis by (simp add: KeyEval_get_all_scores_def)
next
  case (Inr metrics)
  show ?thesis
  proof (cases "adjust \<and> text \<noteq> [] \<and> filter (\<lambda>g. sublist g text) gold \<noteq> []")
    case True
    then obtain m' where "get_scores (filter (\<lambda>g. sublist g text) gold) predicted = Inr m'"
      using get_scores_sublist_returns [OF Inr, of "filter (\<lambda>g. sublist g text) gold"] by auto
    with Inr True show ?thesis
      by (simp add: KeyEval_get_all_scores_def adjust_loop_eq)
  next
    case False
    with Inr show ?thesis
      by (auto simp: KeyEval_get_all_scores_def adjust_loop_eq numeral_eq_Suc)
  qed
qed

text \<open>
  C3. With \<open>adjust\<close> true, a non-empty text and no gold keyword occurring in the text,
  \<^verbatim>\<open>get_all_scores\<close> of \<^verbatim>\<open>key_eval.py\<close> returns the base metrics with the empty list as
  adjusted metrics, and that of \<^verbatim>\<open>KeyEval.py\<close> returns the base metrics with four zeros.
  The base metrics are those of \<^verbatim>\<open>get_scores\<close>; an exception of \<^verbatim>\<open>get_scores\<close> is the
  exception of the call.
\<close>

theorem get_all_scores_empty_adjusted_gold:
  assumes "text \<noteq> []" and "\<forall>g\<in>set gold. \<not> sublist g text"
  shows "get_all_scores gold predicted text True
           = map_sum id (\<lambda>metrics. (metrics, [])) (get_scores gold predicted)
         \<and> KeyEval_get_all_scores gold predicted text True
           = map_sum id (\<lambda>metrics. (metrics, [0, 0, 0, 0])) (get_scores gold predicted)"
proof -
  have "filter (\<lambda>g. sublist g text) gold = []"
    using assms(2) by (simp add: filter_empty_conv)
  then show ?thesis
    using assms(1)
    by (simp add: get_all_scores_eq KeyEval_get_all_scores_eq split: sum.splits)
qed

lemma get_scores_example: "get_scores [''a'', ''b''] [''a''] = Inr (2 / 3, 1 / 2, 1, 1 / 2)"
  "get_scores [''a''] [''a''] = Inr (1, 1, 1, 1)"
  "get_scores [] [''a''] = Inl ZeroDivisionError"
  by (simp_all add: get_scores_def get_recall_def get_precision_def get_f1_def get_all_Rprecision_def
      get_Rprecision_def truediv_def py_max_def py_sum_def str_split_def py_isspace_def)

theorem get_all_scores_empty_adjusted_gold_witness:
  "get_all_scores [''a'', ''b''] [''a''] ''xyz'' True = Inr ((2 / 3, 1 / 2, 1, 1 / 2), [])
   \<and> KeyEval_get_all_scores [''a'', ''b''] [''a''] ''xyz'' True
       = Inr ((2 / 3, 1 / 2, 1, 1 / 2), [0, 0, 0, 0])"
  using get_all_scores_empty_adjusted_gold [of "''xyz''" "[''a'', ''b'']" "[''a'']"]
  by (simp add: get_scores_example sublist_code)

text \<open>
  C8, as the code has it. The first component of \<^verbatim>\<open>get_all_scores\<close> is the result of
  \<^verbatim>\<open>get_scores(gold, predicted)\<close> whatever \<open>text\<close> and \<open>adjust\<close> are (its exception is the
  exception of the call). When \<open>adjust\<close> is true, \<open>text\<close> is non-empty and at least one gold
  phrase occurs in \<open>text\<close>, the adjusted component is \<^verbatim>\<open>get_scores\<close> of the gold phrases
  occurring in \<open>text\<close>, which then returns; in every other case it is the empty list.
\<close>

theorem get_all_scores_components:
  "map_sum id fst (get_all_scores gold predicted text adjust) = get_scores gold predicted
   \<and> (get_scores gold predicted = Inr metrics \<and> adjust \<and> text \<noteq> []
        \<and> filter (\<lambda>g. sublist g text) gold \<noteq> []
      \<longrightarrow> (\<exists>adjusted_metrics.
             get_scores (filter (\<lambda>g. sublist g text) gold) predicted = Inr adjusted_metrics
             \<and> get_all_scores gold predicted text adjust
                 = Inr (metrics, items adjusted_metrics)))
   \<and> (get_scores gold predicted = Inr metrics
        \<and> \<not> (adjust \<and> text \<noteq> [] \<and> filter (\<lambda>g. sublist g text) gold \<noteq> [])
      \<longrightarrow> get_all_scores gold predicted text adjust = Inr (metrics, []))"
proof (intro conjI impI)
  show "map_sum id fst (get_all_scores gold predicted text adjust) = get_scores gold predicted"
    by (simp add: get_all_scores_eq split: sum.splits)
next
  assume a: "get_scores gold predicted = Inr metrics \<and> adjust \<and> text \<noteq> []
    \<and> filter (\<lambda>g. sublist g text) gold \<noteq> []"
  then obtain m' where m': "get_scores (filter (\<lambda>g. sublist g text) gold) predicted = Inr m'"
    using get_scores_sublist_returns [of gold predicted metrics "filter (\<lambda>g. sublist g text) gold"]
    by auto
  with a have "get_all_scores gold predicted text adjust = Inr (metrics, items m')"
    by (simp add: get_all_scores_eq)
  with m' show "\<exists>adjusted_metrics.
      get_scores (filter (\<lambda>g. sublist g text) gold) predicted = Inr adjusted_metrics
      \<and> get_all_scores gold predicted text adjust = Inr (metrics, items adjusted_metrics)"
    by blast
next
  assume "get_scores gold predicted = Inr metrics
    \<and> \<not> (adjust \<and> text \<noteq> [] \<and> filter (\<lambda>g. sublist g text) gold \<noteq> [])"
  then show "get_all_scores gold predicted text adjust = Inr (metrics, [])"
    by (auto simp: get_all_scores_eq)
qed

theorem get_all_scores_components_witness:
  "get_all_scores [''a'', ''b''] [''a''] ''xax'' True
     = Inr ((2 / 3, 1 / 2, 1, 1 / 2), [1, 1, 1, 1])
   \<and> get_all_scores [''a'', ''b''] [''a''] ''xax'' False = Inr ((2 / 3, 1 / 2, 1, 1 / 2), [])"
  using get_all_scores_components
      [of "[''a'', ''b'']" "[''a'']" "''xax''" True "(2 / 3, 1 / 2, 1, 1 / 2)"]
    get_all_scores_components
      [of "[''a'', ''b'']" "[''a'']" "''xax''" False "(2 / 3, 1 / 2, 1, 1 / 2)"]
  by (simp add: get_scores_example sublist_code items_def)

text \<open>
  With no gold phrase in the text the adjusted component is the empty list, where
  \<^verbatim>\<open>get_scores\<close> on the empty adjusted gold list raises.
\<close>

theorem get_all_scores_adjusted_counterexample:
  "get_all_scores [''a''] [''a''] ''x'' True = Inr ((1, 1, 1, 1), [])
   \<and> adjust_loop [''a''] ''x'' [] = []
   \<and> get_scores (adjust_loop [''a''] ''x'' []) [''a''] = Inl ZeroDivisionError
   \<and> map_sum id snd (get_all_scores [''a''] [''a''] ''x'' True)
       \<noteq> map_sum id items (get_scores (adjust_loop [''a''] ''x'' []) [''a''])"
  by (simp add: get_all_scores_def get_scores_example)

subsection \<open>The keyword parser\<close>

lemma split_at_no_sep: "\<not> sublist sep s \<Longrightarrow> split_at sep cur s = [cur @ s]"
  by (induction sep cur s rule: split_at.induct) (auto simp: sublist_Cons_right)

lemma str_split_sep_no_sep: "\<not> str_contains s sep \<Longrightarrow> str_split_sep s sep = [s]"
  by (simp add: str_split_sep_def split_at_no_sep str_contains_sublist)

lemma key_loop_eq:
  "key_loop clean ks new = new @ map clean (concat (map (\<lambda>key. str_split_sep key ''---'') ks))"
  by (induction ks arbitrary: new) (auto simp: str_split_sep_no_sep)

text \<open>
  C7, as the code has it. In \<^verbatim>\<open>key_eval.py\<close> the raw keyword field is split on the
  semicolon if it has one, else on the comma if it has one, else on the tab if it has one,
  else on \<^verbatim>\<open>" to"\<close>; every fragment is split on \<^verbatim>\<open>"---"\<close> (a fragment without it stays whole),
  and \<^verbatim>\<open>clean\<close> is applied to every piece, in order. \<^verbatim>\<open>KeyEval.py\<close> does the same without the
  tab: semicolon, else comma, else \<^verbatim>\<open>" to"\<close>. In \<^verbatim>\<open>key_eval.py\<close>, \<^verbatim>\<open>"a;b;c"\<close> and \<^verbatim>\<open>"a---b,c"\<close>
  both give \<^verbatim>\<open>clean("a")\<close>, \<^verbatim>\<open>clean("b")\<close>, \<^verbatim>\<open>clean("c")\<close>.
\<close>

theorem parse_keywords_delimiters:
  "parse_keywords clean raw =
     map clean (concat (map (\<lambda>key. str_split_sep key ''---'')
       (str_split_sep raw
          (if sublist '';'' raw then '';''
           else if sublist '','' raw then '',''
           else if sublist [CHR 0x09] raw then [CHR 0x09]
           else '' to''))))
   \<and> KeyEval_parse_keywords clean raw =
     map clean (concat (map (\<lambda>key. str_split_sep key ''---'')
       (str_split_sep raw
          (if sublist '';'' raw then '';''
           else if sublist '','' raw then '',''
           else '' to''))))
   \<and> parse_keywords clean ''a;b;c'' = [clean ''a'', clean ''b'', clean ''c'']
   \<and> parse_keywords clean ''a---b,c'' = [clean ''a'', clean ''b'', clean ''c'']"
proof (intro conjI)
  show "parse_keywords clean raw =
     map clean (concat (map (\<lambda>key. str_split_sep key ''---'')
       (str_split_sep raw
          (if sublist '';'' raw then '';''
           else if sublist '','' raw then '',''
           else if sublist [CHR 0x09] raw then [CHR 0x09]
           else '' to''))))"
    by (simp add: parse_keywords_def split_field_def key_loop_eq str_contains_sublist)
  show "KeyEval_parse_keywords clean raw =
     map clean (concat (map (\<lambda>key. str_split_sep key ''---'')
       (str_split_sep raw
          (if sublist '';'' raw then '';''
           else if sublist '','' raw then '',''
           else '' to''))))"
    by (simp add: KeyEval_parse_keywords_def KeyEval_split_field_def key_loop_eq
        str_contains_sublist)
  show "parse_keywords clean ''a;b;c'' = [clean ''a'', clean ''b'', clean ''c'']"
    by (simp add: parse_keywords_def split_field_def str_split_sep_def)
  show "parse_keywords clean ''a---b,c'' = [clean ''a'', clean ''b'', clean ''c'']"
    by (simp add: parse_keywords_def split_field_def str_split_sep_def)
qed

theorem parse_keywords_delimiters_witness:
  "parse_keywords id [CHR ''a'', CHR 0x09, CHR ''b'', CHR ''-'', CHR ''-'', CHR ''-'', CHR ''c'']
     = [''a'', ''b'', ''c'']
   \<and> parse_keywords id ''up to date to---day'' = [''up'', '' date'', '''', ''day'']
   \<and> KeyEval_parse_keywords id ''x, y;z'' = [''x, y'', ''z'']"
  using parse_keywords_delimiters
      [of id "[CHR ''a'', CHR 0x09, CHR ''b'', CHR ''-'', CHR ''-'', CHR ''-'', CHR ''c'']"]
    parse_keywords_delimiters [of id "''up to date to---day''"]
    parse_keywords_delimiters [of id "''x, y;z''"]
  by (simp add: str_split_sep_def sublist_code)

text \<open>
  The parser of \<^verbatim>\<open>KeyEval.py\<close> on a field with a tab and neither semicolon nor comma: the
  field is not split at the tab.
\<close>

theorem KeyEval_parse_keywords_tab_counterexample:
  "KeyEval_parse_keywords id [CHR ''a'', CHR 0x09, CHR ''b''] = [[CHR ''a'', CHR 0x09, CHR ''b'']]
   \<and> str_split_sep [CHR ''a'', CHR 0x09, CHR ''b''] [CHR 0x09] = [''a'', ''b'']
   \<and> parse_keywords id [CHR ''a'', CHR 0x09, CHR ''b''] = [''a'', ''b'']"
  by (simp add: KeyEval_parse_keywords_def KeyEval_split_field_def parse_keywords_def
      split_field_def str_split_sep_def)

subsection \<open>The document loop\<close>

lemma eval_loop_returns:
  assumes "\<forall>(gold, abstract)\<in>set docs. \<exists>r. model abstract top_n = Inr r"
  shows "eval_loop model top_n docs all_scores all_scores_adjust =
     Inr (all_scores @ map (\<lambda>(gold, abstract).
              fst (try_scores gold (fst (projr (model abstract top_n))) abstract)) docs,
          all_scores_adjust @ filter (\<lambda>s. s \<noteq> []) (map (\<lambda>(gold, abstract).
              snd (try_scores gold (fst (projr (model abstract top_n))) abstract)) docs))"
  using assms
proof (induction docs arbitrary: all_scores all_scores_adjust)
  case Nil
  then show ?case by simp
next
  case (Cons d docs)
  obtain gold abstract where d: "d = (gold, abstract)" by (cases d)
  from Cons.prems d obtain r where r: "model abstract top_n = Inr r" by auto
  from Cons.prems have rest: "\<forall>(gold, abstract)\<in>set docs. \<exists>r. model abstract top_n = Inr r"
    by simp
  show ?case
    by (simp add: d r Cons.IH [OF rest] Let_def)
qed

lemma eval_loop_raises:
  assumes "\<forall>(gold, abstract)\<in>set pre. \<exists>r. model abstract top_n = Inr r"
    and "model abstract' top_n = Inl e"
  shows "eval_loop model top_n (pre @ (gold', abstract') # post) all_scores all_scores_adjust
     = Inl e"
  using assms(1)
proof (induction pre arbitrary: all_scores all_scores_adjust)
  case Nil
  then show ?case by (simp add: assms(2))
next
  case (Cons d pre)
  obtain gold abstract where d: "d = (gold, abstract)" by (cases d)
  from Cons.prems d obtain r where r: "model abstract top_n = Inr r" by auto
  from Cons.prems have rest: "\<forall>(gold, abstract)\<in>set pre. \<exists>r. model abstract top_n = Inr r"
    by simp
  show ?case
    by (simp add: d r Cons.IH [OF rest] Let_def)
qed

text \<open>
  C4, as the code has it. When the model call returns for every document, \<^verbatim>\<open>eval_file\<close>
  scores every document: a document on which \<^verbatim>\<open>get_all_scores\<close> raises gets the pair of
  two lists of four zeros, any other document gets its scores, and the loop goes on to
  the next document. The model call is outside the \<^verbatim>\<open>try\<close>: the first document on which
  it raises ends \<^verbatim>\<open>eval_file\<close> with that exception.
\<close>

theorem eval_file_fail_soft_scoring:
  "((\<forall>(gold, abstract)\<in>set docs. \<exists>r. model abstract top_n = Inr r)
      \<longrightarrow> eval_file model top_n docs =
           Inr (map (\<lambda>(gold, abstract).
                   fst (try_scores gold (fst (projr (model abstract top_n))) abstract)) docs,
                filter (\<lambda>s. s \<noteq> []) (map (\<lambda>(gold, abstract).
                   snd (try_scores gold (fst (projr (model abstract top_n))) abstract)) docs)))
   \<and> (get_all_scores gold predicted text True = Inl e
      \<longrightarrow> try_scores gold predicted text = ([0, 0, 0, 0], [0, 0, 0, 0]))
   \<and> (get_all_scores gold predicted text True = Inr (metrics, adjusted_metrics)
      \<longrightarrow> try_scores gold predicted text = (items metrics, adjusted_metrics))
   \<and> ((\<forall>(gold, abstract)\<in>set pre. \<exists>r. model abstract top_n = Inr r)
        \<and> model abstract' top_n = Inl e'
      \<longrightarrow> eval_file model top_n (pre @ (gold', abstract') # post) = Inl e')"
proof (intro conjI impI)
  assume "\<forall>(gold, abstract)\<in>set docs. \<exists>r. model abstract top_n = Inr r"
  then show "eval_file model top_n docs =
     Inr (map (\<lambda>(gold, abstract).
             fst (try_scores gold (fst (projr (model abstract top_n))) abstract)) docs,
          filter (\<lambda>s. s \<noteq> []) (map (\<lambda>(gold, abstract).
             snd (try_scores gold (fst (projr (model abstract top_n))) abstract)) docs))"
    by (simp add: eval_file_def eval_loop_returns)
next
  assume "get_all_scores gold predicted text True = Inl e"
  then show "try_scores gold predicted text = ([0, 0, 0, 0], [0, 0, 0, 0])"
    by (simp add: try_scores_def numeral_eq_Suc)
next
  assume "get_all_scores gold predicted text True = Inr (metrics, adjusted_metrics)"
  then show "try_scores gold predicted text = (items metrics, adjusted_metrics)"
    by (simp add: try_scores_def)
next
  assume "(\<forall>(gold, abstract)\<in>set pre. \<exists>r. model abstract top_n = Inr r)
    \<and> model abstract' top_n = Inl e'"
  then show "eval_file model top_n (pre @ (gold', abstract') # post) = Inl e'"
    by (simp add: eval_file_def eval_loop_raises)
qed

lemma get_all_scores_examples:
  "get_all_scores [] [''a''] ''a b'' True = Inl ZeroDivisionError"
  "get_all_scores [''a''] [''a''] ''a b'' True = Inr ((1, 1, 1, 1), [1, 1, 1, 1])"
  "get_all_scores [''c''] [] ''a b'' True = Inl ZeroDivisionError"
  by (simp_all add: get_all_scores_def get_scores_def get_recall_def get_precision_def get_f1_def
      get_all_Rprecision_def get_Rprecision_def truediv_def py_max_def py_sum_def str_split_def
      py_isspace_def items_def)

theorem eval_file_fail_soft_scoring_witness:
  "eval_file (constant_model [''a'']) 10 [([], ''a b''), ([''a''], ''a b'')]
     = Inr ([[0, 0, 0, 0], [1, 1, 1, 1]], [[0, 0, 0, 0], [1, 1, 1, 1]])
   \<and> try_scores [] [''a''] ''a b'' = ([0, 0, 0, 0], [0, 0, 0, 0])
   \<and> try_scores [''a''] [''a''] ''a b'' = ([1, 1, 1, 1], [1, 1, 1, 1])
   \<and> eval_file raising_model 10 ([] @ ([''a''], ''a b'') # [])
       = Inl (Exception ''get_keywords failed'')"
  using eval_file_fail_soft_scoring [of "[([], ''a b''), ([''a''], ''a b'')]"
      "constant_model [''a'']" 10 "[]" "[''a'']" "''a b''" ZeroDivisionError
      "(1, 1, 1, 1)" "[1, 1, 1, 1]" "[]"]
    eval_file_fail_soft_scoring [of "[]" "constant_model [''a'']" 10 "[''a'']" "[''a'']" "''a b''"
      ZeroDivisionError "(1, 1, 1, 1)" "[1, 1, 1, 1]" "[]"]
    eval_file_fail_soft_scoring [of "[]" raising_model 10 "[]" "[''a'']" "''a b''"
      ZeroDivisionError "(1, 1, 1, 1)" "[1, 1, 1, 1]" "[]" "''a b''"
      "Exception ''get_keywords failed''" "[''a'']" "[]"]
  by (simp add: get_all_scores_examples constant_model_def raising_model_def items_def)

text \<open>
  An exception of the model call is not replaced by a pair of zeros.
\<close>

theorem eval_file_model_exception_counterexample:
  "eval_file raising_model 10 [([''a''], ''a b'')] = Inl (Exception ''get_keywords failed'')
   \<and> eval_file raising_model 10 [([''a''], ''a b'')] \<noteq> Inr ([[0, 0, 0, 0]], [[0, 0, 0, 0]])"
  by (simp add: eval_file_def raising_model_def)


end
